theory Spec2Isabelle
  imports Main
begin

section \<open>The test host bridge: mock dispatcher and diff sessions\<close>

text \<open>
  A shallow embedding of \<^verbatim>\<open>src/scripts/test-hostbridge-server.ts\<close>: the function
  returned by the proxy of \<^verbatim>\<open>createMockService\<close>, with the module-level variables
  \<^verbatim>\<open>diffSessions\<close> and \<^verbatim>\<open>diffCounter\<close> and the disk as explicit state.

  What the embedding leaves out: the calls to \<^verbatim>\<open>console.log\<close> (they change nothing that
  a handler reads), the gRPC transport and the server start-up. A call comes with its
  \<^verbatim>\<open>callback\<close>, as the handlers take it to. A string of the model is the list of the
  bytes that encode the JavaScript string in UTF-8 (a string without unpaired
  surrogates, as every string decoded from a file or a request is); a line break is one
  byte of it, never a part of a longer character. \<^verbatim>\<open>diffCounter\<close> is a natural number; the JavaScript number it stands for is
  exact below \<open>2^53\<close>, so the model is that of a process that opens fewer sessions
  than that.
\<close>

subsection \<open>JavaScript built-ins used by the handlers\<close>

text \<open>\<^verbatim>\<open>a || d\<close> on a string that may be undefined: the empty string is falsy too.\<close>

definition or_default :: "string option \<Rightarrow> string \<Rightarrow> string" where
  "or_default v d = (case v of None \<Rightarrow> d | Some s \<Rightarrow> if s = [] then d else s)"

text \<open>
  \<^verbatim>\<open>s.split(sep)\<close> for a one-character separator, and \<^verbatim>\<open>xs.join(sep)\<close>. Splitting the
  empty string gives one empty piece.
\<close>

fun str_split :: "char \<Rightarrow> string \<Rightarrow> string list" where
  "str_split sep [] = [[]]"
| "str_split sep (c # cs) =
     (if c = sep then [] # str_split sep cs
      else (c # hd (str_split sep cs)) # tl (str_split sep cs))"

fun str_join :: "char \<Rightarrow> string list \<Rightarrow> string" where
  "str_join sep [] = []"
| "str_join sep [l] = l"
| "str_join sep (l # m # ls) = l @ sep # str_join sep (m # ls)"

definition newline :: char where
  "newline = CHR 0x0A"

definition slash :: char where
  "slash = CHR ''/''"

text \<open>
  \<^verbatim>\<open>xs.splice(start, deleteCount, ...items)\<close> (ECMAScript, Array.prototype.splice): a
  negative \<open>start\<close> counts from the end, both numbers are then cut to the array's
  bounds, and the removed elements are replaced by \<open>items\<close>. The array is changed in
  place; the model returns the new array.
\<close>

definition actualStart :: "nat \<Rightarrow> int \<Rightarrow> nat" where
  "actualStart len start =
     nat (if start < 0 then max (int len + start) 0 else min start (int len))"

definition actualDeleteCount :: "nat \<Rightarrow> int \<Rightarrow> int \<Rightarrow> nat" where
  "actualDeleteCount len start deleteCount =
     nat (min (max deleteCount 0) (int len - int (actualStart len start)))"

definition array_splice :: "'a list \<Rightarrow> int \<Rightarrow> int \<Rightarrow> 'a list \<Rightarrow> 'a list" where
  "array_splice xs start deleteCount items =
     take (actualStart (length xs) start) xs @ items @
     drop (actualStart (length xs) start + actualDeleteCount (length xs) start deleteCount) xs"

text \<open>The decimal digits of a number, as a template literal prints it.\<close>

definition digit_char :: "nat \<Rightarrow> char" where
  "digit_char d = char_of (of_char CHR ''0'' + d)"

fun string_of_nat :: "nat \<Rightarrow> string" where
  "string_of_nat n =
     (if n < 10 then [digit_char n] else string_of_nat (n div 10) @ [digit_char (n mod 10)])"

declare string_of_nat.simps [simp del]

text \<open>Reading the digits back.\<close>

definition digit_value :: "char \<Rightarrow> nat" where
  "digit_value c = of_char c - of_char CHR ''0''"

definition nat_of_string :: "string \<Rightarrow> nat" where
  "nat_of_string ds = foldl (\<lambda>a c. 10 * a + digit_value c) 0 ds"

subsection \<open>Node's path module (POSIX)\<close>

text \<open>
  \<^verbatim>\<open>path.isAbsolute\<close>, \<^verbatim>\<open>path.join\<close> and \<^verbatim>\<open>path.dirname\<close> belong to Node, not to the
  repository. They are modelled after Node's POSIX implementation: \<open>join\<close> puts a slash
  between its non-empty arguments and normalises the result (empty and \<open>.\<close> segments
  dropped, \<open>..\<close> resolved against the segment before it).
\<close>

definition isAbsolute :: "string \<Rightarrow> bool" where
  "isAbsolute p = (case p of [] \<Rightarrow> False | c # _ \<Rightarrow> c = slash)"

text \<open>The segments kept so far are held in reverse, the last one first.\<close>

fun normalizeSegments :: "bool \<Rightarrow> string list \<Rightarrow> string list \<Rightarrow> string list" where
  "normalizeSegments allowAboveRoot res [] = rev res"
| "normalizeSegments allowAboveRoot res (seg # segs) =
     (if seg = [] \<or> seg = ''.'' then normalizeSegments allowAboveRoot res segs
      else if seg = ''..'' then
        (if res \<noteq> [] \<and> hd res \<noteq> ''..'' then normalizeSegments allowAboveRoot (tl res) segs
         else if allowAboveRoot then normalizeSegments allowAboveRoot (''..'' # res) segs
         else normalizeSegments allowAboveRoot res segs)
      else normalizeSegments allowAboveRoot (seg # res) segs)"

definition normalizeString :: "string \<Rightarrow> bool \<Rightarrow> string" where
  "normalizeString p allowAboveRoot =
     str_join slash (normalizeSegments allowAboveRoot [] (str_split slash p))"

definition path_normalize :: "string \<Rightarrow> string" where
  "path_normalize p =
     (if p = [] then ''.''
      else
        let isAbs = (hd p = slash);
            trailingSeparator = (last p = slash);
            res = normalizeString p (\<not> isAbs)
        in if res = [] then (if isAbs then ''/'' else if trailingSeparator then ''./'' else ''.'')
           else let res' = (if trailingSeparator then res @ ''/'' else res)
                in if isAbs then slash # res' else res')"

text \<open>\<^verbatim>\<open>path.join(a, b)\<close>, the two-argument call of the source.\<close>

definition path_join :: "string \<Rightarrow> string \<Rightarrow> string" where
  "path_join a b =
     (if a = [] \<and> b = [] then ''.''
      else if a = [] then path_normalize b
      else if b = [] then path_normalize a
      else path_normalize (a @ slash # b))"

text \<open>
  \<^verbatim>\<open>path.dirname\<close>: trailing slashes are skipped, then the path is cut at the last slash
  that is not its first character.
\<close>

definition dirname :: "string \<Rightarrow> string" where
  "dirname p =
     (if p = [] then ''.''
      else
        let hasRoot = (hd p = slash);
            r = dropWhile (\<lambda>c. c \<noteq> slash) (dropWhile (\<lambda>c. c = slash) (rev (tl p)))
        in if r = [] then (if hasRoot then ''/'' else ''.'')
           else if hasRoot \<and> length r = 1 then ''//''
           else take (length r) p)"

subsection \<open>Decoding UTF-8\<close>

text \<open>
  \<^verbatim>\<open>fs.readFileSync(path, "utf8")\<close> decodes the bytes of the file, and never fails: the
  bytes that are not well-formed UTF-8 are replaced by the character U+FFFD, one for
  each longest stretch that begins a character and cannot be continued, as the WHATWG
  decoder does. In the model the decoded string is again a list of bytes, its UTF-8
  encoding; U+FFFD is the three bytes \<open>EF BF BD\<close>.

  \<open>expected b\<close> gives, for the first byte of a character, the range in which each of
  the following bytes must lie, and nothing for a byte that begins no character.
\<close>

definition expected :: "char \<Rightarrow> (nat \<times> nat) list option" where
  "expected b =
     (let n = (of_char b :: nat)
      in if n \<le> 0x7F then Some []
         else if 0xC2 \<le> n \<and> n \<le> 0xDF then Some [(0x80, 0xBF)]
         else if 0xE0 \<le> n \<and> n \<le> 0xEF then
           Some [(if n = 0xE0 then 0xA0 else 0x80, if n = 0xED then 0x9F else 0xBF),
                 (0x80, 0xBF)]
         else if 0xF0 \<le> n \<and> n \<le> 0xF4 then
           Some [(if n = 0xF0 then 0x90 else 0x80, if n = 0xF4 then 0x8F else 0xBF),
                 (0x80, 0xBF), (0x80, 0xBF)]
         else None)"

text \<open>How many of the bytes that follow lie in their ranges, up to the first that does not.\<close>

fun match_cont :: "(nat \<times> nat) list \<Rightarrow> string \<Rightarrow> nat" where
  "match_cont [] bs = 0"
| "match_cont (r # rs) [] = 0"
| "match_cont (r # rs) (c # cs) =
     (if fst r \<le> of_char c \<and> of_char c \<le> snd r then Suc (match_cont rs cs) else 0)"

definition replacement :: string where
  "replacement = [CHR 0xEF, CHR 0xBF, CHR 0xBD]"

function utf8_decode :: "string \<Rightarrow> string" where
  "utf8_decode [] = []"
| "utf8_decode (b # bs) =
     (case expected b of
        None \<Rightarrow> replacement @ utf8_decode bs
      | Some rs \<Rightarrow>
          if match_cont rs bs = length rs
          then (b # take (length rs) bs) @ utf8_decode (drop (length rs) bs)
          else replacement @ utf8_decode (drop (match_cont rs bs) bs))"
  by pat_completeness auto
termination
  by (relation "measure length") auto

text \<open>The well-formed byte sequences: every character complete and in its ranges.\<close>

function utf8_valid :: "string \<Rightarrow> bool" where
  "utf8_valid [] = True"
| "utf8_valid (b # bs) =
     (case expected b of
        None \<Rightarrow> False
      | Some rs \<Rightarrow> match_cont rs bs = length rs \<and> utf8_valid (drop (length rs) bs))"
  by pat_completeness auto
termination
  by (relation "measure length") auto

subsection \<open>The disk\<close>

text \<open>
  The file system is a collaborator of the handlers. The model keeps a node for each
  path as it is spelled: a file with its bytes and whether it may be read and written
  (\<open>File bytes readable writable\<close>), or a directory. The four calls of the source return
  what Node returns or the error Node throws. Reading decodes the bytes; writing
  stores the bytes of the string, which are its encoding.
\<close>

datatype fs_error = ENOENT | EISDIR | EACCES | ENOTDIR | EEXIST

datatype node = File string bool bool | Directory

type_synonym filesystem = "string \<rightharpoonup> node"

definition existsSync :: "filesystem \<Rightarrow> string \<Rightarrow> bool" where
  "existsSync d p = (d p \<noteq> None)"

definition readFileSync :: "filesystem \<Rightarrow> string \<Rightarrow> fs_error + string" where
  "readFileSync d p =
     (case d p of
        None \<Rightarrow> Inl ENOENT
      | Some Directory \<Rightarrow> Inl EISDIR
      | Some (File bytes readable writable) \<Rightarrow>
          if readable then Inr (utf8_decode bytes) else Inl EACCES)"

definition writeFileSync :: "filesystem \<Rightarrow> string \<Rightarrow> string \<Rightarrow> fs_error + filesystem" where
  "writeFileSync d p text =
     (case d p of
        Some Directory \<Rightarrow> Inl EISDIR
      | Some (File old readable writable) \<Rightarrow>
          if writable then Inr (d(p \<mapsto> File text readable writable)) else Inl EACCES
      | None \<Rightarrow>
          (case d (dirname p) of
             Some Directory \<Rightarrow>
               if p \<noteq> [] \<and> last p = slash then Inl EISDIR
               else Inr (d(p \<mapsto> File text True True))
           | Some (File old readable writable) \<Rightarrow> Inl ENOTDIR
           | None \<Rightarrow> Inl ENOENT))"

text \<open>The directory and the directories above it, found by at most \<open>n\<close> steps upwards.\<close>

fun parents :: "nat \<Rightarrow> string \<Rightarrow> string list" where
  "parents 0 p = [p]"
| "parents (Suc n) p = (if dirname p = p then [p] else p # parents n (dirname p))"

definition is_file :: "node option \<Rightarrow> bool" where
  "is_file n = (case n of Some (File text readable writable) \<Rightarrow> True | _ \<Rightarrow> False)"

text \<open>\<^verbatim>\<open>fs.mkdirSync(dir, { recursive: true })\<close>.\<close>

definition mkdirSync :: "filesystem \<Rightarrow> string \<Rightarrow> fs_error + filesystem" where
  "mkdirSync d dir =
     (let ps = parents (length dir) dir
      in if is_file (d dir) then Inl EEXIST
         else if list_ex (\<lambda>p. is_file (d p)) ps then Inl ENOTDIR
         else Inr (\<lambda>q. if q \<in> set ps \<and> d q = None then Some Directory else d q))"

subsection \<open>State, requests and responses\<close>

record DiffSession =
  originalPath :: string
  content :: "string list"
  encoding :: string

text \<open>
  The module's variables \<^verbatim>\<open>diffSessions\<close> and \<^verbatim>\<open>diffCounter\<close>, and the disk.
\<close>

record host =
  diffSessions :: "string \<rightharpoonup> DiffSession"
  diffCounter :: nat
  fs :: filesystem

text \<open>What the handlers read of the process: an environment variable, \<^verbatim>\<open>process.cwd()\<close>,
  \<^verbatim>\<open>process.pid\<close> and \<^verbatim>\<open>os.hostname()\<close>.\<close>

record process =
  TEST_HOSTBRIDGE_WORKSPACE_DIR :: "string option"
  cwd :: string
  pid :: nat
  hostname :: string

text \<open>
  An edit of a request; a field that the request leaves out is \<open>None\<close>. The field
  \<open>edit_content\<close> is \<^verbatim>\<open>content\<close> in the source.
\<close>

record ContentEdit =
  start_line :: "int option"
  end_line :: "int option"
  edit_content :: "string option"

text \<open>The fields of \<^verbatim>\<open>call.request\<close> that some handler reads.\<close>

record request =
  path :: "string option"
  diff_id :: "string option"
  edits :: "ContentEdit list option"

datatype response =
    Empty
  | Paths "string list"
  | StringValue string
  | TelemetrySettings nat
  | WebviewHtml string
  | ShowTextDocument string nat bool
  | OpenDiffResponse string
  | DocumentText string
  | FileDiagnostics "string list"

text \<open>
  What a call ends in: \<^verbatim>\<open>callback(err, response)\<close>, \<^verbatim>\<open>call.end()\<close>, or an exception that
  leaves the handler.
\<close>

datatype outcome = Callback "string option" response | StreamEnd | Threw

subsection \<open>The handlers\<close>

definition initial :: "filesystem \<Rightarrow> host" where
  "initial d = \<lparr>diffSessions = Map.empty, diffCounter = 0, fs = d\<rparr>"

definition diffId_of :: "process \<Rightarrow> nat \<Rightarrow> string" where
  "diffId_of pr counter = ''diff_'' @ string_of_nat (pid pr) @ ''_'' @ string_of_nat counter"

definition fullPath_of :: "process \<Rightarrow> request \<Rightarrow> string" where
  "fullPath_of pr req =
     (let filePath = or_default (path req) [];
          workspaceDir = or_default (TEST_HOSTBRIDGE_WORKSPACE_DIR pr) (cwd pr)
      in if isAbsolute filePath then filePath else path_join workspaceDir filePath)"

definition openDiff :: "process \<Rightarrow> request \<Rightarrow> host \<Rightarrow> outcome \<times> host" where
  "openDiff pr req s =
     (let fullPath = fullPath_of pr req;
          counter = diffCounter s + 1;
          diffId = diffId_of pr counter;
          lines =
            (if existsSync (fs s) fullPath then
               (case readFileSync (fs s) fullPath of
                  Inr text \<Rightarrow> str_split newline text
                | Inl err \<Rightarrow> [])
             else [])
      in (Callback None (OpenDiffResponse diffId),
          s\<lparr>diffCounter := counter,
            diffSessions := (diffSessions s)(diffId \<mapsto>
              \<lparr>originalPath = fullPath, content = lines, encoding = ''utf8''\<rparr>)\<rparr>))"

text \<open>The body of the loop over the edits, and the loop.\<close>

definition applyEdit :: "string list \<Rightarrow> ContentEdit \<Rightarrow> string list" where
  "applyEdit lines edit =
     (let startLine = (case start_line edit of None \<Rightarrow> 0 | Some n \<Rightarrow> n);
          endLine = (case end_line edit of None \<Rightarrow> startLine | Some n \<Rightarrow> n);
          newContent = or_default (edit_content edit) [];
          newLines = str_split newline newContent
      in array_splice lines startLine (endLine - startLine + 1) newLines)"

fun applyEditsLoop :: "string list \<Rightarrow> ContentEdit list \<Rightarrow> string list" where
  "applyEditsLoop lines [] = lines"
| "applyEditsLoop lines (edit # rest) = applyEditsLoop (applyEdit lines edit) rest"

text \<open>\<^verbatim>\<open>diffSessions.get(diffId)\<close>, where \<open>diffId\<close> may be undefined.\<close>

definition getSession :: "host \<Rightarrow> string option \<Rightarrow> DiffSession option" where
  "getSession s diffId = (case diffId of None \<Rightarrow> None | Some k \<Rightarrow> diffSessions s k)"

definition applyEdits :: "request \<Rightarrow> host \<Rightarrow> outcome \<times> host" where
  "applyEdits req s =
     (case diff_id req of
        None \<Rightarrow> (Callback None Empty, s)
      | Some diffId \<Rightarrow>
          (case diffSessions s diffId of
             None \<Rightarrow> (Callback None Empty, s)
           | Some session \<Rightarrow>
               (let es = (case edits req of None \<Rightarrow> [] | Some es \<Rightarrow> es)
                in (Callback None Empty,
                    s\<lparr>diffSessions := (diffSessions s)(diffId \<mapsto>
                        session\<lparr>content := applyEditsLoop (content session) es\<rparr>)\<rparr>))))"

text \<open>
  The \<^verbatim>\<open>try\<close> block of \<^verbatim>\<open>saveDocument\<close>: an error of \<^verbatim>\<open>mkdirSync\<close> or \<^verbatim>\<open>writeFileSync\<close> is
  caught, and the disk keeps what was done before it.
\<close>

definition saveSession :: "DiffSession \<Rightarrow> filesystem \<Rightarrow> filesystem" where
  "saveSession session d =
     (let dir = dirname (originalPath session)
      in case (if \<not> existsSync d dir then mkdirSync d dir else Inr d) of
           Inl err \<Rightarrow> d
         | Inr d1 \<Rightarrow>
             (case writeFileSync d1 (originalPath session) (str_join newline (content session)) of
                Inl err \<Rightarrow> d1
              | Inr d2 \<Rightarrow> d2))"

definition saveDocument :: "request \<Rightarrow> host \<Rightarrow> outcome \<times> host" where
  "saveDocument req s =
     (case getSession s (diff_id req) of
        None \<Rightarrow> (Callback None Empty, s)
      | Some session \<Rightarrow> (Callback None Empty, s\<lparr>fs := saveSession session (fs s)\<rparr>))"

definition closeDiff :: "request \<Rightarrow> host \<Rightarrow> outcome \<times> host" where
  "closeDiff req s =
     (case diff_id req of
        None \<Rightarrow> (Callback None Empty, s)
      | Some diffId \<Rightarrow> (Callback None Empty, s\<lparr>diffSessions := (diffSessions s)(diffId := None)\<rparr>))"

definition getWorkspacePaths :: "process \<Rightarrow> response" where
  "getWorkspacePaths pr =
     Paths [or_default (TEST_HOSTBRIDGE_WORKSPACE_DIR pr) ''/test-workspace'']"

text \<open>
  The function that the proxy returns for the property \<open>prop\<close>, applied to a call with
  the request \<open>req\<close>. The service's name is only logged.
\<close>

definition createMockService ::
  "string \<Rightarrow> process \<Rightarrow> string \<Rightarrow> request \<Rightarrow> host \<Rightarrow> outcome \<times> host" where
  "createMockService serviceName pr prop req s =
     (if prop = ''getWorkspacePaths'' then (Callback None (getWorkspacePaths pr), s)
      else if prop = ''getMachineId'' then
        (Callback None (StringValue (''fake-machine-id-'' @ hostname pr)), s)
      else if prop = ''getTelemetrySettings'' then (Callback None (TelemetrySettings 2), s)
      else if prop = ''clipboardReadText'' then (Callback None (StringValue []), s)
      else if prop = ''getWebviewHtml'' then
        (Callback None (WebviewHtml ''<html><body>Fake Webview</body></html>''), s)
      else if prop = ''showTextDocument'' then
        (Callback None (ShowTextDocument (or_default (path req) []) 1 True), s)
      else if prop = ''openDiff'' then openDiff pr req s
      else if prop = ''getDocumentText'' then (Callback None (DocumentText []), s)
      else if prop = ''getOpenTabs'' \<or> prop = ''getVisibleTabs'' \<or> prop = ''showOpenDialogue''
        then (Callback None (Paths []), s)
      else if prop = ''getDiagnostics'' then (Callback None (FileDiagnostics []), s)
      else if prop = ''applyEdits'' then applyEdits req s
      else if prop = ''saveDocument'' then saveDocument req s
      else if prop = ''closeDiff'' then closeDiff req s
      else if prop = ''subscribeToTelemetrySettings'' then (StreamEnd, s)
      else (Callback None Empty, s))"

subsection \<open>Runs of the server\<close>

text \<open>
  Between two calls another process may change the disk. A run is a list of calls and
  of such changes; \<open>run\<close> gives the outcomes of the calls in their order.
\<close>

datatype event = Call string string request | DiskChange filesystem

fun run :: "process \<Rightarrow> host \<Rightarrow> event list \<Rightarrow> outcome list \<times> host" where
  "run pr s [] = ([], s)"
| "run pr s (Call serviceName prop req # es) =
     (let r = createMockService serviceName pr prop req s;
          rest = run pr (snd r) es
      in (fst r # fst rest, snd rest))"
| "run pr s (DiskChange d # es) = run pr (s\<lparr>fs := d\<rparr>) es"

text \<open>The states that a process can be in: it starts from \<open>initial\<close>.\<close>

inductive reachable :: "process \<Rightarrow> host \<Rightarrow> bool" for pr :: process where
  start: "reachable pr (initial d)"
| call: "reachable pr s \<Longrightarrow> reachable pr (snd (createMockService serviceName pr prop req s))"
| disk: "reachable pr s \<Longrightarrow> reachable pr (s\<lparr>fs := d\<rparr>)"

text \<open>The session IDs that the calls of a run returned.\<close>

fun diffIds :: "outcome list \<Rightarrow> string list" where
  "diffIds [] = []"
| "diffIds (Callback err (OpenDiffResponse d) # outs) = d # diffIds outs"
| "diffIds (out # outs) = diffIds outs"

text \<open>The lines of a session, if it is in the table.\<close>

definition contentOf :: "host \<Rightarrow> string \<Rightarrow> string list option" where
  "contentOf s k = map_option content (diffSessions s k)"

text \<open>The labels of the \<^verbatim>\<open>switch\<close>: the methods with a handler of their own.\<close>

definition specialized :: "string list" where
  "specialized =
     [''getWorkspacePaths'', ''getMachineId'', ''getTelemetrySettings'', ''clipboardReadText'',
      ''getWebviewHtml'', ''showTextDocument'', ''openDiff'', ''getDocumentText'', ''getOpenTabs'',
      ''getVisibleTabs'', ''showOpenDialogue'', ''getDiagnostics'', ''applyEdits'',
      ''saveDocument'', ''closeDiff'', ''subscribeToTelemetrySettings'']"

subsection \<open>What the specification says of an edit\<close>

text \<open>
  The specification's reading of one edit: the lines \<open>startLine\<close> to \<open>endLine\<close>, both
  included, are replaced by the lines of \<open>newText\<close>; \<open>endLine\<close> is \<open>startLine\<close> when left
  out. \<open>take\<close> and \<open>drop\<close> stop at the end of the list, so a range that reaches past the
  last line replaces the lines that exist.
\<close>

definition replaceRange :: "string list \<Rightarrow> nat \<Rightarrow> nat \<Rightarrow> string list \<Rightarrow> string list" where
  "replaceRange lines startLine endLine newLines =
     take startLine lines @ newLines @ drop (Suc endLine) lines"

definition startLine_of :: "ContentEdit \<Rightarrow> int" where
  "startLine_of edit = (case start_line edit of None \<Rightarrow> 0 | Some n \<Rightarrow> n)"

definition endLine_of :: "ContentEdit \<Rightarrow> int" where
  "endLine_of edit = (case end_line edit of None \<Rightarrow> startLine_of edit | Some n \<Rightarrow> n)"

definition newText_of :: "ContentEdit \<Rightarrow> string" where
  "newText_of edit = (case edit_content edit of None \<Rightarrow> [] | Some t \<Rightarrow> t)"

definition spec_applyEdit :: "string list \<Rightarrow> ContentEdit \<Rightarrow> string list" where
  "spec_applyEdit lines edit =
     replaceRange lines (nat (startLine_of edit)) (nat (endLine_of edit))
       (str_split newline (newText_of edit))"

fun spec_applyEdits :: "string list \<Rightarrow> ContentEdit list \<Rightarrow> string list" where
  "spec_applyEdits lines [] = lines"
| "spec_applyEdits lines (edit # rest) = spec_applyEdits (spec_applyEdit lines edit) rest"

text \<open>
  An edit names a range of lines when its start is not negative and not after its end;
  a list of edits does when each one does so for the lines that the edits before it
  have left.
\<close>

definition names_range :: "ContentEdit \<Rightarrow> bool" where
  "names_range edit = (0 \<le> startLine_of edit \<and> startLine_of edit \<le> endLine_of edit)"


text \<open>
  The specification's reading of an edit out of range: the range is cut to the lines
  that exist, the start to \<open>0 .. length\<close> and the end after it.
\<close>

definition clampedReplace :: "string list \<Rightarrow> int \<Rightarrow> int \<Rightarrow> string list \<Rightarrow> string list" where
  "clampedReplace lines startLine endLine newLines =
     (let len = int (length lines);
          lo = max 0 (min startLine len);
          hi = max lo (min (endLine + 1) len)
      in take (nat lo) lines @ newLines @ drop (nat hi) lines)"

text \<open>The other reading: each end of the range is moved to the nearest line.\<close>

definition clampIndex :: "nat \<Rightarrow> int \<Rightarrow> nat" where
  "clampIndex len i = nat (max 0 (min i (int len - 1)))"

text \<open>
  What an edit does to the lines, whatever its range: the range is cut to the lines
  that exist when the start is not negative; a negative start counts back from the
  end, and \<open>endLine - startLine + 1\<close> lines from there are replaced.
\<close>

definition bestEffortEdit :: "string list \<Rightarrow> ContentEdit \<Rightarrow> string list" where
  "bestEffortEdit lines edit =
     (if 0 \<le> startLine_of edit then
        clampedReplace lines (startLine_of edit) (endLine_of edit)
          (str_split newline (newText_of edit))
      else
        take (nat (int (length lines) + startLine_of edit)) lines @
        str_split newline (newText_of edit) @
        drop (nat (int (length lines) + startLine_of edit) +
              nat (endLine_of edit - startLine_of edit + 1)) lines)"

fun bestEffortEdits :: "string list \<Rightarrow> ContentEdit list \<Rightarrow> string list" where
  "bestEffortEdits lines [] = lines"
| "bestEffortEdits lines (edit # rest) = bestEffortEdits (bestEffortEdit lines edit) rest"

subsection \<open>The IDs in the table\<close>

text \<open>
  Every ID in the table was made by \<^verbatim>\<open>openDiff\<close> from a value that the counter has had.
\<close>

definition ids_issued :: "process \<Rightarrow> host \<Rightarrow> bool" where
  "ids_issued pr s =
     (\<forall>k. diffSessions s k \<noteq> None \<longrightarrow> (\<exists>n. n \<le> diffCounter s \<and> k = diffId_of pr n))"

subsection \<open>Examples\<close>

definition example_process :: process where
  "example_process =
     \<lparr>TEST_HOSTBRIDGE_WORKSPACE_DIR = None, cwd = ''/home/user/project'', pid = 7,
      hostname = ''testhost''\<rparr>"

definition configured_process :: process where
  "configured_process = example_process\<lparr>TEST_HOSTBRIDGE_WORKSPACE_DIR := Some ''/ws''\<rparr>"

definition abc_text :: string where
  "abc_text = ''a'' @ [newline] @ ''b'' @ [newline] @ ''c''"

definition abc_disk :: filesystem where
  "abc_disk =
     [''/home/user/project'' \<mapsto> Directory,
      ''/home/user/project/f.txt'' \<mapsto> File abc_text True True]"

text \<open>A file that is not UTF-8: the bytes \<open>FF FE\<close>, a line break and the letter \<open>a\<close>.\<close>

definition ff_fe_bytes :: string where
  "ff_fe_bytes = [CHR 0xFF, CHR 0xFE, newline, CHR ''a'']"

definition ff_fe_disk :: filesystem where
  "ff_fe_disk =
     [''/home/user/project'' \<mapsto> Directory,
      ''/home/user/project/f.txt'' \<mapsto> File ff_fe_bytes True True]"

definition abc_session :: DiffSession where
  "abc_session =
     \<lparr>originalPath = ''/home/user/project/f.txt'', content = [''a'', ''b'', ''c''],
      encoding = ''utf8''\<rparr>"

definition abc_host :: host where
  "abc_host = \<lparr>diffSessions = [''diff_7_1'' \<mapsto> abc_session], diffCounter = 1, fs = abc_disk\<rparr>"

definition no_request :: request where
  "no_request = \<lparr>path = None, diff_id = None, edits = None\<rparr>"

definition replace_b :: ContentEdit where
  "replace_b = \<lparr>start_line = Some 1, end_line = Some 1, edit_content = Some ''B''\<rparr>"

definition past_end_edit :: ContentEdit where
  "past_end_edit = \<lparr>start_line = Some 5, end_line = Some 5, edit_content = Some ''X''\<rparr>"

definition negative_edit :: ContentEdit where
  "negative_edit = \<lparr>start_line = Some (- 1), end_line = Some (- 1), edit_content = Some ''X''\<rparr>"


section \<open>Properties\<close>

subsection \<open>Strings and arrays\<close>

lemma str_split_not_Nil: "str_split sep s \<noteq> []"
  by (induction s) auto

lemma str_join_Cons: "ls \<noteq> [] \<Longrightarrow> str_join sep (l # ls) = l @ sep # str_join sep ls"
  by (cases ls) auto

lemma str_join_Cons_hd:
  "ls \<noteq> [] \<Longrightarrow> str_join sep ((c # hd ls) # tl ls) = c # str_join sep ls"
  by (cases ls; cases "tl ls") auto

lemma str_join_str_split: "str_join sep (str_split sep s) = s"
  by (induction s) (auto simp: str_join_Cons str_join_Cons_hd str_split_not_Nil)

lemma drop_min_length: "drop (min a (length xs)) xs = drop a xs"
  by (cases "a \<le> length xs") (simp_all add: min_def)

lemma take_min_length: "take (min a (length xs)) xs = take a xs"
  by (cases "a \<le> length xs") (simp_all add: min_def)

lemma actualStart_nonneg: "0 \<le> start \<Longrightarrow> actualStart len start = min (nat start) len"
  unfolding actualStart_def by (simp add: min_def) linarith

lemma actualEnd_nonneg:
  assumes "0 \<le> start" "start \<le> e + 1"
  shows "actualStart len start + actualDeleteCount len start (e - start + 1) =
    min (nat (e + 1)) len"
proof -
  have "actualStart len start + actualDeleteCount len start (e - start + 1) =
        min (nat start) len +
        nat (min (max (e - start + 1) 0) (int len - int (min (nat start) len)))"
    by (simp add: actualDeleteCount_def actualStart_nonneg [OF assms(1)])
  also have "\<dots> = min (nat (e + 1)) len"
    using assms by (simp add: min_def max_def) linarith
  finally show ?thesis .
qed

lemma array_splice_nonneg:
  assumes "0 \<le> start" "start \<le> e + 1"
  shows "array_splice xs start (e - start + 1) items =
    take (nat start) xs @ items @ drop (nat (e + 1)) xs"
  unfolding array_splice_def actualEnd_nonneg [OF assms]
  by (simp only: drop_min_length take_min_length actualStart_nonneg [OF assms(1)])


lemma digit_value_digit_char: "d < 10 \<Longrightarrow> digit_value (digit_char d) = d"
  by (simp add: digit_value_def digit_char_def)

lemma nat_of_string_snoc: "nat_of_string (ds @ [c]) = 10 * nat_of_string ds + digit_value c"
  by (simp add: nat_of_string_def)

lemma nat_of_string_of_nat: "nat_of_string (string_of_nat n) = n"
proof (induction n rule: string_of_nat.induct)
  case (1 n)
  show ?case
  proof (cases "n < 10")
    case True
    then show ?thesis
      by (subst string_of_nat.simps) (simp add: nat_of_string_def digit_value_digit_char)
  next
    case False
    with 1 show ?thesis
      by (subst string_of_nat.simps) (simp add: nat_of_string_snoc digit_value_digit_char)
  qed
qed

lemma string_of_nat_inj: "string_of_nat n = string_of_nat m \<Longrightarrow> n = m"
  by (metis nat_of_string_of_nat)

lemma diffId_of_inj: "diffId_of pr n = diffId_of pr m \<Longrightarrow> n = m"
  by (simp add: diffId_of_def string_of_nat_inj)

lemma isAbsolute_normalize: "isAbsolute p \<Longrightarrow> isAbsolute (path_normalize p)"
  by (cases p) (auto simp: isAbsolute_def path_normalize_def Let_def slash_def)

lemma isAbsolute_path_join: "isAbsolute a \<Longrightarrow> isAbsolute (path_join a b)"
proof -
  assume a: "isAbsolute a"
  then have "a \<noteq> []" and "isAbsolute (a @ slash # b)"
    by (auto simp: isAbsolute_def split: list.splits)
  with a show ?thesis
    by (simp add: path_join_def isAbsolute_normalize)
qed

subsection \<open>Decoding\<close>

lemma utf8_decode_valid: "utf8_valid bs \<Longrightarrow> utf8_decode bs = bs"
proof (induction bs rule: utf8_decode.induct)
  case 1
  show ?case by simp
next
  case (2 b bs)
  then show ?case
    by (auto split: option.splits)
qed

lemma match_cont_le: "match_cont rs bs \<le> length bs"
  by (induction rs bs rule: match_cont.induct) auto

lemma match_cont_take:
  "match_cont rs bs = length rs \<Longrightarrow> match_cont rs (take (length rs) bs @ ys) = length rs"
  by (induction rs bs rule: match_cont.induct) (auto split: if_splits)

lemma utf8_valid_replacement: "utf8_valid (replacement @ bs) = utf8_valid bs"
  by (simp add: replacement_def expected_def)

lemma utf8_valid_decode: "utf8_valid (utf8_decode bs)"
proof (induction bs rule: utf8_decode.induct)
  case 1
  show ?case by simp
next
  case (2 b bs)
  show ?case
  proof (cases "expected b")
    case None
    with 2 show ?thesis
      by (simp add: utf8_valid_replacement)
  next
    case (Some rs)
    show ?thesis
    proof (cases "match_cont rs bs = length rs")
      case True
      then have "length rs \<le> length bs"
        using match_cont_le [of rs bs] by simp
      then have "drop (length rs) (take (length rs) bs @ utf8_decode (drop (length rs) bs)) =
          utf8_decode (drop (length rs) bs)"
        by simp
      with 2(2) [OF Some True] Some True show ?thesis
        by (simp add: match_cont_take)
    next
      case False
      with 2(3) [OF Some False] Some show ?thesis
        by (simp add: utf8_valid_replacement)
    qed
  qed
qed

lemma utf8_decode_idem: "utf8_decode (utf8_decode bs) = utf8_decode bs"
  by (simp add: utf8_decode_valid utf8_valid_decode)

subsection \<open>One edit\<close>

lemma applyEdit_eq:
  "applyEdit lines edit =
     array_splice lines (startLine_of edit) (endLine_of edit - startLine_of edit + 1)
       (str_split newline (newText_of edit))"
  by (simp add: applyEdit_def startLine_of_def endLine_of_def newText_of_def or_default_def
      split: option.splits)

lemma applyEdit_names_range:
  assumes "names_range edit"
  shows "applyEdit lines edit = spec_applyEdit lines edit"
proof -
  have s: "0 \<le> startLine_of edit" and e: "startLine_of edit \<le> endLine_of edit + 1"
    using assms by (simp_all add: names_range_def)
  have "nat (endLine_of edit + 1) = Suc (nat (endLine_of edit))"
    using assms by (simp add: names_range_def nat_add_distrib)
  then show ?thesis
    by (simp add: applyEdit_eq array_splice_nonneg [OF s e] spec_applyEdit_def replaceRange_def)
qed

lemma applyEditsLoop_spec:
  "list_all names_range es \<Longrightarrow> applyEditsLoop lines es = spec_applyEdits lines es"
  by (induction es arbitrary: lines) (simp_all add: applyEdit_names_range)

lemma applyEditsLoop_append:
  "applyEditsLoop lines (es1 @ es2) = applyEditsLoop (applyEditsLoop lines es1) es2"
  by (induction es1 arbitrary: lines) simp_all

lemma applyEdit_clamped:
  assumes "0 \<le> startLine_of edit"
  shows "applyEdit lines edit =
     clampedReplace lines (startLine_of edit) (endLine_of edit)
       (str_split newline (newText_of edit))"
proof -
  let ?len = "length lines" and ?s = "startLine_of edit" and ?e = "endLine_of edit"
  have a: "actualStart ?len ?s = nat (max 0 (min ?s (int ?len)))"
    using assms by (simp add: actualStart_def)
  have b: "actualStart ?len ?s + actualDeleteCount ?len ?s (?e - ?s + 1) =
           nat (max (max 0 (min ?s (int ?len))) (min (?e + 1) (int ?len)))"
    using assms unfolding actualDeleteCount_def a by (simp add: min_def max_def) linarith
  show ?thesis
    unfolding applyEdit_eq array_splice_def clampedReplace_def Let_def b
    by (simp only: a)
qed

lemma applyEdit_negative:
  assumes "startLine_of edit < 0"
  shows "applyEdit lines edit =
     take (nat (int (length lines) + startLine_of edit)) lines @
     str_split newline (newText_of edit) @
     drop (nat (int (length lines) + startLine_of edit) +
           nat (endLine_of edit - startLine_of edit + 1)) lines"
proof -
  let ?len = "length lines" and ?s = "startLine_of edit" and ?e = "endLine_of edit"
  have a: "actualStart ?len ?s = nat (int ?len + ?s)"
    using assms by (simp add: actualStart_def max_def)
  have b: "actualStart ?len ?s + actualDeleteCount ?len ?s (?e - ?s + 1) =
           min (nat (int ?len + ?s) + nat (?e - ?s + 1)) ?len"
    using assms unfolding actualDeleteCount_def a by (simp add: min_def max_def) linarith
  show ?thesis
    unfolding applyEdit_eq array_splice_def b
    by (simp only: a drop_min_length)
qed


lemma bestEffortEdit_eq: "applyEdit lines edit = bestEffortEdit lines edit"
  by (cases "0 \<le> startLine_of edit")
     (simp_all add: bestEffortEdit_def applyEdit_clamped applyEdit_negative)

lemma bestEffortEdits_eq: "applyEditsLoop lines es = bestEffortEdits lines es"
  by (induction es arbitrary: lines) (simp_all add: bestEffortEdit_eq)

subsection \<open>The handlers\<close>

lemma dispatch_applyEdits: "createMockService sv pr ''applyEdits'' req s = applyEdits req s"
  by (simp add: createMockService_def)

lemma dispatch_saveDocument: "createMockService sv pr ''saveDocument'' req s = saveDocument req s"
  by (simp add: createMockService_def)

lemma dispatch_closeDiff: "createMockService sv pr ''closeDiff'' req s = closeDiff req s"
  by (simp add: createMockService_def)

lemma dispatch_openDiff: "createMockService sv pr ''openDiff'' req s = openDiff pr req s"
  by (simp add: createMockService_def)

lemma dispatch_getWorkspacePaths:
  "createMockService sv pr ''getWorkspacePaths'' req s = (Callback None (getWorkspacePaths pr), s)"
  by (simp add: createMockService_def)

lemma applyEdits_found:
  assumes "diffSessions s k = Some session"
  shows "applyEdits (req\<lparr>diff_id := Some k, edits := Some es\<rparr>) s =
     (Callback None Empty,
      s\<lparr>diffSessions := (diffSessions s)(k \<mapsto>
          session\<lparr>content := applyEditsLoop (content session) es\<rparr>)\<rparr>)"
  using assms by (simp add: applyEdits_def)

lemma applyEdits_fst: "fst (applyEdits req s) = Callback None Empty"
  by (simp add: applyEdits_def split: option.splits)

lemma delete_absent:
  assumes "diffSessions s k = None"
  shows "s\<lparr>diffSessions := (diffSessions s)(k := None)\<rparr> = s"
proof -
  have "(diffSessions s)(k := None) = diffSessions s"
    using assms by (simp add: fun_upd_idem)
  then show ?thesis by simp
qed

lemma closeDiff_fst: "fst (closeDiff req s) = Callback None Empty"
  by (simp add: closeDiff_def split: option.splits)

lemma closeDiff_gone: "getSession (snd (closeDiff req s)) (diff_id req) = None"
  by (simp add: closeDiff_def getSession_def split: option.splits)

lemma closeDiff_absent:
  "getSession s (diff_id req) = None \<Longrightarrow> closeDiff req s = (Callback None Empty, s)"
  by (auto simp: closeDiff_def getSession_def delete_absent split: option.splits)

lemma openDiff_eq:
  "openDiff pr req s =
     (Callback None (OpenDiffResponse (diffId_of pr (diffCounter s + 1))),
      s\<lparr>diffCounter := diffCounter s + 1,
        diffSessions := (diffSessions s)(diffId_of pr (diffCounter s + 1) \<mapsto>
          \<lparr>originalPath = fullPath_of pr req,
           content = (if existsSync (fs s) (fullPath_of pr req) then
                        (case readFileSync (fs s) (fullPath_of pr req) of
                           Inr text \<Rightarrow> str_split newline text
                         | Inl err \<Rightarrow> [])
                      else []),
           encoding = ''utf8''\<rparr>)\<rparr>)"
  by (simp add: openDiff_def Let_def)

lemma other_methods:
  assumes "prop \<noteq> ''openDiff''"
  shows "diffCounter (snd (createMockService sv pr prop req s)) = diffCounter s"
    and "fst (createMockService sv pr prop req s) \<noteq> Callback err (OpenDiffResponse d)"
    and "diffSessions (snd (createMockService sv pr prop req s)) k \<noteq> None \<Longrightarrow>
         diffSessions s k \<noteq> None"
  using assms
  by (auto simp: createMockService_def getWorkspacePaths_def applyEdits_def saveDocument_def
      closeDiff_def split: option.splits if_splits)

subsection \<open>The IDs of a run\<close>

lemma ids_issued_initial: "ids_issued pr (initial d)"
  by (simp add: ids_issued_def initial_def)

lemma ids_issued_call:
  assumes "ids_issued pr s"
  shows "ids_issued pr (snd (createMockService sv pr prop req s))"
proof (cases "prop = ''openDiff''")
  case True
  show ?thesis
    unfolding ids_issued_def
  proof (intro allI impI)
    fix k
    assume k: "diffSessions (snd (createMockService sv pr prop req s)) k \<noteq> None"
    show "\<exists>n\<le>diffCounter (snd (createMockService sv pr prop req s)). k = diffId_of pr n"
    proof (cases "k = diffId_of pr (diffCounter s + 1)")
      case True
      then show ?thesis
        using \<open>prop = ''openDiff''\<close> by (auto simp: dispatch_openDiff openDiff_eq)
    next
      case False
      with k \<open>prop = ''openDiff''\<close> have "diffSessions s k \<noteq> None"
        by (simp add: dispatch_openDiff openDiff_eq)
      with assms obtain n where "n \<le> diffCounter s" "k = diffId_of pr n"
        by (auto simp: ids_issued_def)
      then have "n \<le> diffCounter s + 1" by simp
      with \<open>k = diffId_of pr n\<close> show ?thesis
        using \<open>prop = ''openDiff''\<close> by (auto simp: dispatch_openDiff openDiff_eq)
    qed
  qed
next
  case False
  show ?thesis
    unfolding ids_issued_def other_methods(1) [OF False]
    using assms other_methods(3) [OF False] by (auto simp: ids_issued_def)
qed

lemma ids_issued_disk: "ids_issued pr s \<Longrightarrow> ids_issued pr (s\<lparr>fs := d\<rparr>)"
  by (simp add: ids_issued_def)

lemma reachable_ids_issued: "reachable pr s \<Longrightarrow> ids_issued pr s"
  by (induction rule: reachable.induct)
     (simp_all add: ids_issued_initial ids_issued_call ids_issued_disk)

lemma next_id_fresh:
  assumes "ids_issued pr s" "diffCounter s < n"
  shows "diffSessions s (diffId_of pr n) = None"
proof (rule ccontr)
  assume "diffSessions s (diffId_of pr n) \<noteq> None"
  with assms(1) obtain m where "m \<le> diffCounter s" "diffId_of pr n = diffId_of pr m"
    by (auto simp: ids_issued_def)
  with assms(2) show False
    by (auto dest: diffId_of_inj)
qed

lemma diffIds_other:
  "(\<And>err d. out \<noteq> Callback err (OpenDiffResponse d)) \<Longrightarrow> diffIds (out # outs) = diffIds outs"
  by (cases "(out # outs)" rule: diffIds.cases) auto

text \<open>
  The IDs that a run returns are made from values above the counter at its start, each
  from a larger one than the one before.
\<close>

lemma run_ids:
  "set (diffIds (fst (run pr s es))) \<subseteq> {diffId_of pr n | n. diffCounter s < n} \<and>
   distinct (diffIds (fst (run pr s es)))"
proof (induction es arbitrary: s)
  case Nil
  show ?case by simp
next
  case (Cons ev es)
  show ?case
  proof (cases ev)
    case (DiskChange d)
    with Cons [of "s\<lparr>fs := d\<rparr>"] show ?thesis by simp
  next
    case (Call sv meth req)
    let ?r = "createMockService sv pr meth req s"
    note IH = Cons [of "snd ?r"]
    show ?thesis
    proof (cases "meth = ''openDiff''")
      case True
      have c: "diffCounter (snd ?r) = diffCounter s + 1"
        and o: "fst ?r = Callback None (OpenDiffResponse (diffId_of pr (diffCounter s + 1)))"
        using True by (simp_all add: dispatch_openDiff openDiff_eq)
      have "diffId_of pr (diffCounter s + 1) \<notin> set (diffIds (fst (run pr (snd ?r) es)))"
        using IH unfolding c by (auto dest: diffId_of_inj)
      moreover have "set (diffIds (fst (run pr (snd ?r) es))) \<subseteq>
          {diffId_of pr n | n. diffCounter s < n}"
      proof
        fix x
        assume "x \<in> set (diffIds (fst (run pr (snd ?r) es)))"
        with IH obtain n where "diffCounter (snd ?r) < n" "x = diffId_of pr n"
          by auto
        then show "x \<in> {diffId_of pr n | n. diffCounter s < n}"
          unfolding c by auto
      qed
      ultimately show ?thesis
        using IH Call o by (auto simp: Let_def)
    next
      case False
      from IH show ?thesis
        using Call other_methods(2) [OF False]
        by (simp add: Let_def diffIds_other other_methods(1) [OF False])
    qed
  qed
qed

subsection \<open>Reading and writing a file\<close>

lemma readFileSync_Inr:
  "readFileSync d p = Inr text \<longleftrightarrow>
     (\<exists>bytes w. d p = Some (File bytes True w) \<and> text = utf8_decode bytes)"
  by (auto simp: readFileSync_def split: option.splits node.splits if_splits)

lemma readFileSync_exists: "readFileSync d p = Inr text \<Longrightarrow> existsSync d p"
  by (auto simp: readFileSync_Inr existsSync_def)

lemma mkdirSync_keeps: "mkdirSync d dir = Inr d1 \<Longrightarrow> d p \<noteq> None \<Longrightarrow> d1 p = d p"
  by (auto simp: mkdirSync_def Let_def split: if_splits)

lemma writeFileSync_existing:
  assumes "d p = Some (File bytes True w)"
  shows "writeFileSync d p text = (if w then Inr (d(p \<mapsto> File text True w)) else Inl EACCES)"
  using assms by (cases w) (simp_all add: writeFileSync_def)

text \<open>What saving does to a file that is there and can be read.\<close>

lemma saveSession_existing:
  assumes f: "d p = Some (File bytes True w)"
    and s: "originalPath session = p"
  shows "saveSession session d p = Some (File bytes True w) \<or>
         saveSession session d p = Some (File (str_join newline (content session)) True w)"
    and "existsSync d (dirname p) \<Longrightarrow> w \<Longrightarrow>
         saveSession session d = d(p \<mapsto> File (str_join newline (content session)) True w)"
proof -
  show "saveSession session d p = Some (File bytes True w) \<or>
         saveSession session d p = Some (File (str_join newline (content session)) True w)"
  proof (cases "if \<not> existsSync d (dirname p) then mkdirSync d (dirname p) else Inr d")
    case (Inl err)
    then show ?thesis
      using f by (simp add: saveSession_def s)
  next
    case (Inr d1)
    then have "d1 p = d p"
      using f by (auto simp: mkdirSync_keeps split: if_splits)
    then have f1: "d1 p = Some (File bytes True w)"
      using f by simp
    show ?thesis
      using Inr f1
      by (simp add: saveSession_def s writeFileSync_existing [where d = d1 and p = p, OF f1])
  qed
  show "saveSession session d = d(p \<mapsto> File (str_join newline (content session)) True w)"
    if "existsSync d (dirname p)" w
    using that
    by (simp add: saveSession_def s writeFileSync_existing [where d = d and p = p, OF f])
qed

subsection \<open>The examples\<close>

lemma diff_7_1: "diffId_of example_process (Suc 0) = ''diff_7_1''"
  by code_simp

lemma f_txt:
  "fullPath_of example_process (no_request\<lparr>path := Some ''f.txt''\<rparr>) = ''/home/user/project/f.txt''"
  by code_simp

lemma g_txt:
  "fullPath_of example_process (no_request\<lparr>path := Some ''g.txt''\<rparr>) = ''/home/user/project/g.txt''"
  by code_simp

lemma abc_lines: "str_split newline abc_text = [''a'', ''b'', ''c'']"
  by code_simp

lemma abc_valid: "utf8_valid abc_text"
  by code_simp

lemma abc_read: "readFileSync abc_disk ''/home/user/project/f.txt'' = Inr abc_text"
  by (simp add: readFileSync_def abc_disk_def utf8_decode_valid abc_valid)

lemma ff_fe_decoded:
  "utf8_decode ff_fe_bytes = replacement @ replacement @ [newline, CHR ''a'']"
  by code_simp

lemma dirname_f_txt: "dirname ''/home/user/project/f.txt'' = ''/home/user/project''"
  by code_simp

section \<open>The claims\<close>

text \<open>
  Claim C1. For a session that is in the table, \<^verbatim>\<open>applyEdits\<close> applies the edits in the
  order of the list, each to the lines that the edits before it have left: when every
  edit names a range (its start is not negative and not after its end), the session's
  lines become what the specification's reading gives, each edit replacing the lines
  \<open>startLine\<close> to \<open>endLine\<close> by the lines of its text. A list of edits applied at once
  gives what its two halves give one after the other, an edit without \<open>endLine\<close> is
  the edit with \<open>endLine = startLine\<close>, and on the lines \<open>a, b, c\<close> the edit of line 1
  to \<open>B\<close> gives \<open>a, B, c\<close>.
\<close>

theorem applyEdits_in_order:
  "(diffSessions s k = Some session \<and> list_all names_range es \<longrightarrow>
      createMockService sv pr ''applyEdits'' (req\<lparr>diff_id := Some k, edits := Some es\<rparr>) s =
        (Callback None Empty,
         s\<lparr>diffSessions := (diffSessions s)(k \<mapsto>
             session\<lparr>content := spec_applyEdits (content session) es\<rparr>)\<rparr>)) \<and>
   applyEditsLoop lines (es1 @ es2) = applyEditsLoop (applyEditsLoop lines es1) es2 \<and>
   (end_line edit = None \<longrightarrow>
      applyEdit lines edit = applyEdit lines (edit\<lparr>end_line := start_line edit\<rparr>)) \<and>
   applyEditsLoop [''a'', ''b'', ''c''] [replace_b] = [''a'', ''B'', ''c'']"
proof (intro conjI impI)
  assume "diffSessions s k = Some session \<and> list_all names_range es"
  then show "createMockService sv pr ''applyEdits'' (req\<lparr>diff_id := Some k, edits := Some es\<rparr>) s =
        (Callback None Empty,
         s\<lparr>diffSessions := (diffSessions s)(k \<mapsto>
             session\<lparr>content := spec_applyEdits (content session) es\<rparr>)\<rparr>)"
    by (simp add: dispatch_applyEdits applyEdits_found applyEditsLoop_spec)
next
  show "applyEditsLoop lines (es1 @ es2) = applyEditsLoop (applyEditsLoop lines es1) es2"
    by (rule applyEditsLoop_append)
next
  assume "end_line edit = None"
  then show "applyEdit lines edit = applyEdit lines (edit\<lparr>end_line := start_line edit\<rparr>)"
    by (simp add: applyEdit_def split: option.splits)
next
  show "applyEditsLoop [''a'', ''b'', ''c''] [replace_b] = [''a'', ''B'', ''c'']"
    by (simp add: applyEdit_def or_default_def newline_def array_splice_def actualStart_def
        actualDeleteCount_def replace_b_def)
qed

theorem applyEdits_in_order_witness:
  "diffSessions abc_host ''diff_7_1'' = Some abc_session \<and> list_all names_range [replace_b] \<and>
   contentOf (snd (createMockService ''DiffService'' example_process ''applyEdits''
       (no_request\<lparr>diff_id := Some ''diff_7_1'', edits := Some [replace_b]\<rparr>) abc_host)) ''diff_7_1''
     = Some [''a'', ''B'', ''c'']"
proof -
  have h: "diffSessions abc_host ''diff_7_1'' = Some abc_session \<and> list_all names_range [replace_b]"
    by (simp add: abc_host_def names_range_def startLine_of_def endLine_of_def replace_b_def)
  have "spec_applyEdits (content abc_session) [replace_b] = [''a'', ''B'', ''c'']"
    by (simp add: abc_session_def spec_applyEdit_def replaceRange_def startLine_of_def
        endLine_of_def newText_of_def replace_b_def newline_def)
  with h applyEdits_in_order [THEN conjunct1, rule_format, OF h,
      where sv = "''DiffService''" and pr = example_process and req = no_request]
  show ?thesis
    by (simp add: contentOf_def)
qed

text \<open>
  Claim C2. When the request's session ID is not in the table (or the request has
  none), \<^verbatim>\<open>applyEdits\<close> and \<^verbatim>\<open>saveDocument\<close> each answer with the empty response and no
  error, and leave the table, every session and the disk as they were.
\<close>

theorem not_found_is_noop:
  "getSession s (diff_id req) = None \<Longrightarrow>
     createMockService sv pr ''applyEdits'' req s = (Callback None Empty, s) \<and>
     createMockService sv pr ''saveDocument'' req s = (Callback None Empty, s)"
  by (simp add: dispatch_applyEdits dispatch_saveDocument applyEdits_def saveDocument_def
      getSession_def split: option.splits)

theorem not_found_is_noop_witness:
  "getSession abc_host (diff_id (no_request\<lparr>diff_id := Some ''diff_9_9''\<rparr>)) = None \<and>
   createMockService ''DiffService'' example_process ''applyEdits''
     (no_request\<lparr>diff_id := Some ''diff_9_9''\<rparr>) abc_host = (Callback None Empty, abc_host) \<and>
   createMockService ''DiffService'' example_process ''saveDocument''
     (no_request\<lparr>diff_id := Some ''diff_9_9''\<rparr>) abc_host = (Callback None Empty, abc_host)"
proof -
  have h: "getSession abc_host (diff_id (no_request\<lparr>diff_id := Some ''diff_9_9''\<rparr>)) = None"
    by (simp add: getSession_def abc_host_def)
  from not_found_is_noop [OF h] h show ?thesis
    by simp
qed

text \<open>
  Claim C5. \<^verbatim>\<open>closeDiff\<close> answers every request with the empty response and no error.
  A second call with the same request changes nothing, and neither does a call for an
  ID that is not in the table.
\<close>

theorem closeDiff_idempotent:
  "fst (createMockService sv pr ''closeDiff'' req s) = Callback None Empty \<and>
   createMockService sv pr ''closeDiff'' req (snd (createMockService sv pr ''closeDiff'' req s)) =
     (Callback None Empty, snd (createMockService sv pr ''closeDiff'' req s)) \<and>
   (getSession s (diff_id req) = None \<longrightarrow>
      createMockService sv pr ''closeDiff'' req s = (Callback None Empty, s))"
  by (simp add: dispatch_closeDiff closeDiff_fst closeDiff_absent closeDiff_gone)

theorem closeDiff_idempotent_witness:
  "getSession abc_host (diff_id (no_request\<lparr>diff_id := Some ''diff_9_9''\<rparr>)) = None \<and>
   createMockService ''DiffService'' example_process ''closeDiff''
     (no_request\<lparr>diff_id := Some ''diff_9_9''\<rparr>) abc_host = (Callback None Empty, abc_host)"
proof -
  have h: "getSession abc_host (diff_id (no_request\<lparr>diff_id := Some ''diff_9_9''\<rparr>)) = None"
    by (simp add: getSession_def abc_host_def)
  from closeDiff_idempotent [THEN conjunct2, THEN conjunct2, rule_format, OF h] h show ?thesis
    by simp
qed

text \<open>
  Claim C7. A method that is not a label of the \<^verbatim>\<open>switch\<close> is answered, whatever the
  request, with the empty response and no error, and the state is left as it was.
\<close>

theorem unrecognized_method_empty:
  "prop \<notin> set specialized \<Longrightarrow> createMockService sv pr prop req s = (Callback None Empty, s)"
  by (simp add: specialized_def createMockService_def)

theorem unrecognized_method_empty_witness:
  "''getHostVersion'' \<notin> set specialized \<and>
   createMockService ''EnvService'' example_process ''getHostVersion'' no_request abc_host =
     (Callback None Empty, abc_host)"
proof -
  have h: "''getHostVersion'' \<notin> set specialized"
    by (simp add: specialized_def)
  from unrecognized_method_empty [OF h] h show ?thesis
    by simp
qed

text \<open>
  Claim C6, as amended. \<^verbatim>\<open>applyEdits\<close> answers every request with the empty response
  and no error. For a session that is in the table and any list of edits, the call
  leaves the session with the lines that the edits give one after the other, each as
  follows, and the rest of the state as it was. An edit whose start is not negative is
  applied with its range cut to the lines that exist: a start past the end appends the
  new lines, an end past the last line replaces up to the last line, an end before the
  start removes nothing. A negative start is not cut to the first line: it counts back
  from the end of the lines (and is cut to the first line only when it reaches before
  it), and from there \<open>endLine - startLine + 1\<close> lines, as many as exist, are replaced.
\<close>

theorem out_of_range_edit:
  "fst (createMockService sv pr ''applyEdits'' req s) = Callback None Empty \<and>
   (diffSessions s k = Some session \<longrightarrow>
      createMockService sv pr ''applyEdits'' (req\<lparr>diff_id := Some k, edits := Some es\<rparr>) s =
        (Callback None Empty,
         s\<lparr>diffSessions := (diffSessions s)(k \<mapsto>
             session\<lparr>content := bestEffortEdits (content session) es\<rparr>)\<rparr>)) \<and>
   (diffSessions s k = Some session \<and> 0 \<le> startLine_of edit \<longrightarrow>
      contentOf (snd (createMockService sv pr ''applyEdits''
          (req\<lparr>diff_id := Some k, edits := Some [edit]\<rparr>) s)) k =
        Some (clampedReplace (content session) (startLine_of edit) (endLine_of edit)
          (str_split newline (newText_of edit)))) \<and>
   (diffSessions s k = Some session \<and> startLine_of edit < 0 \<longrightarrow>
      contentOf (snd (createMockService sv pr ''applyEdits''
          (req\<lparr>diff_id := Some k, edits := Some [edit]\<rparr>) s)) k =
        Some (take (nat (int (length (content session)) + startLine_of edit)) (content session) @
          str_split newline (newText_of edit) @
          drop (nat (int (length (content session)) + startLine_of edit) +
                nat (endLine_of edit - startLine_of edit + 1)) (content session)))"
  by (simp add: dispatch_applyEdits applyEdits_fst applyEdits_found bestEffortEdits_eq
      contentOf_def bestEffortEdit_def)

theorem out_of_range_edit_witness:
  "diffSessions abc_host ''diff_7_1'' = Some abc_session \<and>
   0 \<le> startLine_of past_end_edit \<and>
   contentOf (snd (createMockService ''DiffService'' example_process ''applyEdits''
       (no_request\<lparr>diff_id := Some ''diff_7_1'', edits := Some [past_end_edit]\<rparr>) abc_host))
     ''diff_7_1'' = Some [''a'', ''b'', ''c'', ''X''] \<and>
   startLine_of negative_edit < 0 \<and>
   contentOf (snd (createMockService ''DiffService'' example_process ''applyEdits''
       (no_request\<lparr>diff_id := Some ''diff_7_1'', edits := Some [negative_edit]\<rparr>) abc_host))
     ''diff_7_1'' = Some [''a'', ''b'', ''X''] \<and>
   contentOf (snd (createMockService ''DiffService'' example_process ''applyEdits''
       (no_request\<lparr>diff_id := Some ''diff_7_1'', edits := Some [past_end_edit, negative_edit]\<rparr>)
       abc_host)) ''diff_7_1'' = Some [''a'', ''b'', ''c'', ''X'']"
proof -
  have h0: "diffSessions abc_host ''diff_7_1'' = Some abc_session"
    by (simp add: abc_host_def)
  have h1: "0 \<le> startLine_of past_end_edit" and h2: "startLine_of negative_edit < 0"
    by (simp_all add: startLine_of_def past_end_edit_def negative_edit_def)
  have c: "content abc_session = [''a'', ''b'', ''c'']"
    by (simp add: abc_session_def)
  note t = out_of_range_edit [where s = abc_host and k = "''diff_7_1''" and session = abc_session
      and sv = "''DiffService''" and pr = example_process and req = no_request]
  from t [where edit = past_end_edit, THEN conjunct2, THEN conjunct2, THEN conjunct1,
      rule_format, OF conjI [OF h0 h1]]
  have a: "contentOf (snd (createMockService ''DiffService'' example_process ''applyEdits''
       (no_request\<lparr>diff_id := Some ''diff_7_1'', edits := Some [past_end_edit]\<rparr>) abc_host))
     ''diff_7_1'' = Some [''a'', ''b'', ''c'', ''X'']"
    by (simp add: c clampedReplace_def startLine_of_def endLine_of_def newText_of_def
        past_end_edit_def newline_def)
  from t [where edit = negative_edit, THEN conjunct2, THEN conjunct2, THEN conjunct2,
      rule_format, OF conjI [OF h0 h2]]
  have b: "contentOf (snd (createMockService ''DiffService'' example_process ''applyEdits''
       (no_request\<lparr>diff_id := Some ''diff_7_1'', edits := Some [negative_edit]\<rparr>) abc_host))
     ''diff_7_1'' = Some [''a'', ''b'', ''X'']"
    by (simp add: c startLine_of_def endLine_of_def newText_of_def negative_edit_def newline_def)
  have "bestEffortEdits [''a'', ''b'', ''c''] [past_end_edit, negative_edit] =
      [''a'', ''b'', ''c'', ''X'']"
    by (simp add: bestEffortEdit_def clampedReplace_def startLine_of_def endLine_of_def
        newText_of_def past_end_edit_def negative_edit_def newline_def)
  with t [where es = "[past_end_edit, negative_edit]", THEN conjunct2, THEN conjunct1,
      rule_format, OF h0]
  have "contentOf (snd (createMockService ''DiffService'' example_process ''applyEdits''
       (no_request\<lparr>diff_id := Some ''diff_7_1'', edits := Some [past_end_edit, negative_edit]\<rparr>)
       abc_host)) ''diff_7_1'' = Some [''a'', ''b'', ''c'', ''X'']"
    by (simp add: contentOf_def c)
  with a b h0 h1 h2 show ?thesis
    by simp
qed

text \<open>
  Claim C6 as the specification states it fails for a negative start. On the lines
  \<open>a, b, c\<close> the edit of line \<open>-1\<close> to \<open>X\<close> replaces the last line. Cutting the range to
  the lines that exist would leave no line to replace and put \<open>X\<close> first; moving both
  ends to the nearest line would replace the first line.
\<close>

theorem negative_start_not_clamped:
  "applyEdit [''a'', ''b'', ''c''] negative_edit = [''a'', ''b'', ''X''] \<and>
   clampedReplace [''a'', ''b'', ''c''] (startLine_of negative_edit) (endLine_of negative_edit)
     (str_split newline (newText_of negative_edit)) = [''X'', ''a'', ''b'', ''c''] \<and>
   replaceRange [''a'', ''b'', ''c''] (clampIndex 3 (startLine_of negative_edit))
     (clampIndex 3 (endLine_of negative_edit)) (str_split newline (newText_of negative_edit))
     = [''X'', ''b'', ''c''] \<and>
   applyEdit [''a'', ''b'', ''c''] negative_edit \<noteq>
     clampedReplace [''a'', ''b'', ''c''] (startLine_of negative_edit) (endLine_of negative_edit)
       (str_split newline (newText_of negative_edit))"
  by (simp add: applyEdit_def or_default_def newline_def array_splice_def actualStart_def
      actualDeleteCount_def clampedReplace_def replaceRange_def clampIndex_def negative_edit_def
      startLine_of_def endLine_of_def newText_of_def)



text \<open>
  Claim C3. \<^verbatim>\<open>openDiff\<close> answers with the ID made from the process and the next value of
  the counter. In a state that the process can reach no session has that ID yet. After
  the call the table holds under that ID a session for the resolved path, the other
  sessions are as before, and the new session's lines are none when the file does not
  exist or cannot be read, and the file's text split at the line breaks when it can.
\<close>

theorem openDiff_creates_session:
  assumes "createMockService sv pr ''openDiff'' req s = (out, s')"
    and "k = diffId_of pr (diffCounter s + 1)"
    and "p = fullPath_of pr req"
  shows "out = Callback None (OpenDiffResponse k) \<and>
    (reachable pr s \<longrightarrow> diffSessions s k = None) \<and>
    map_option originalPath (diffSessions s' k) = Some p \<and>
    (\<not> existsSync (fs s) p \<or> (\<exists>err. readFileSync (fs s) p = Inl err) \<longrightarrow>
       contentOf s' k = Some []) \<and>
    (\<forall>text. existsSync (fs s) p \<and> readFileSync (fs s) p = Inr text \<longrightarrow>
       contentOf s' k = Some (str_split newline text)) \<and>
    (\<forall>k'. k' \<noteq> k \<longrightarrow> diffSessions s' k' = diffSessions s k')"
proof -
  have "reachable pr s \<longrightarrow> diffSessions s k = None"
    using next_id_fresh [of pr s "diffCounter s + 1"] assms(2)
    by (simp add: reachable_ids_issued)
  then show ?thesis
    using assms by (auto simp: dispatch_openDiff openDiff_eq contentOf_def)
qed

theorem openDiff_creates_session_witness:
  "reachable example_process (initial abc_disk) \<and>
   existsSync abc_disk ''/home/user/project/f.txt'' \<and>
   readFileSync abc_disk ''/home/user/project/f.txt'' = Inr abc_text \<and>
   \<not> existsSync abc_disk ''/home/user/project/g.txt'' \<and>
   diffSessions (initial abc_disk) ''diff_7_1'' = None \<and>
   fst (createMockService ''DiffService'' example_process ''openDiff''
          (no_request\<lparr>path := Some ''f.txt''\<rparr>) (initial abc_disk))
     = Callback None (OpenDiffResponse ''diff_7_1'') \<and>
   contentOf (snd (createMockService ''DiffService'' example_process ''openDiff''
          (no_request\<lparr>path := Some ''f.txt''\<rparr>) (initial abc_disk))) ''diff_7_1''
     = Some [''a'', ''b'', ''c''] \<and>
   contentOf (snd (createMockService ''DiffService'' example_process ''openDiff''
          (no_request\<lparr>path := Some ''g.txt''\<rparr>) (initial abc_disk))) ''diff_7_1''
     = Some []"
proof -
  let ?open = "\<lambda>name. createMockService ''DiffService'' example_process ''openDiff''
          (no_request\<lparr>path := Some name\<rparr>) (initial abc_disk)"
  have r: "reachable example_process (initial abc_disk)"
    by (rule reachable.start)
  have k: "''diff_7_1'' = diffId_of example_process (diffCounter (initial abc_disk) + 1)"
    by (simp add: initial_def diff_7_1)
  have "existsSync abc_disk ''/home/user/project/f.txt''"
    and g: "\<not> existsSync abc_disk ''/home/user/project/g.txt''"
    by (simp_all add: existsSync_def abc_disk_def)
  with abc_read have f: "existsSync abc_disk ''/home/user/project/f.txt''"
      "readFileSync abc_disk ''/home/user/project/f.txt'' = Inr abc_text"
    by simp_all
  have d: "fs (initial abc_disk) = abc_disk"
    by (simp add: initial_def)
  note t = openDiff_creates_session [where sv = "''DiffService''" and pr = example_process
      and s = "initial abc_disk" and k = "''diff_7_1''", OF prod.collapse [symmetric] k]
  from t [where req = "no_request\<lparr>path := Some ''f.txt''\<rparr>", OF f_txt [symmetric]]
  have "diffSessions (initial abc_disk) ''diff_7_1'' = None"
    and "fst (?open ''f.txt'') = Callback None (OpenDiffResponse ''diff_7_1'')"
    and "contentOf (snd (?open ''f.txt'')) ''diff_7_1'' = Some [''a'', ''b'', ''c'']"
    using r f by (simp_all add: d abc_lines)
  moreover
  from t [where req = "no_request\<lparr>path := Some ''g.txt''\<rparr>", OF g_txt [symmetric]]
  have "contentOf (snd (?open ''g.txt'')) ''diff_7_1'' = Some []"
    using g by (simp add: d)
  ultimately show ?thesis
    using r f g by simp
qed

text \<open>
  Claim C4, as amended. When the file that a request names can be read, \<^verbatim>\<open>openDiff\<close>
  followed by \<^verbatim>\<open>saveDocument\<close> for the new session, with no edit in between, answers
  with the empty response, and the file reads as the same text afterwards: joining the
  lines of a text with line breaks gives the text back. When the bytes of the file are
  well-formed UTF-8, the file is left with the same bytes, and the whole disk is as it
  was when the file's directory exists.
\<close>

theorem open_then_save_roundtrip:
  assumes "readFileSync (fs s) (fullPath_of pr req) = Inr text"
    and "createMockService sv pr ''openDiff'' req s = (Callback None (OpenDiffResponse k), s1)"
    and "createMockService sv pr ''saveDocument'' (req'\<lparr>diff_id := Some k\<rparr>) s1 = (out, s2)"
  shows "out = Callback None Empty \<and>
    str_join newline (str_split newline text) = text \<and>
    readFileSync (fs s2) (fullPath_of pr req) = Inr text \<and>
    (\<forall>bytes readable writable.
        fs s (fullPath_of pr req) = Some (File bytes readable writable) \<and> utf8_valid bytes \<longrightarrow>
        fs s2 (fullPath_of pr req) = Some (File bytes readable writable) \<and>
        (existsSync (fs s) (dirname (fullPath_of pr req)) \<longrightarrow> fs s2 = fs s))"
proof -
  let ?p = "fullPath_of pr req"
  let ?session = "\<lparr>originalPath = ?p, content = str_split newline text, encoding = ''utf8''\<rparr>"
  obtain bytes w where f: "fs s ?p = Some (File bytes True w)" and t: "text = utf8_decode bytes"
    using assms(1) by (auto simp: readFileSync_Inr)
  have s1: "diffSessions s1 k = Some ?session" "fs s1 = fs s"
    using assms(1,2) readFileSync_exists [OF assms(1)]
    by (auto simp: dispatch_openDiff openDiff_eq)
  have out: "out = Callback None Empty" and s2: "fs s2 = saveSession ?session (fs s)"
    using assms(3) s1 by (auto simp: dispatch_saveDocument saveDocument_def getSession_def)
  note sv = saveSession_existing [where d = "fs s" and p = ?p and session = ?session, OF f]
  have after: "fs s2 ?p = Some (File bytes True w) \<or> fs s2 ?p = Some (File text True w)"
    using sv(1) by (simp add: s2 str_join_str_split)
  then have "readFileSync (fs s2) ?p = Inr text"
    by (auto simp: readFileSync_def t utf8_decode_idem)
  moreover have "fs s2 ?p = Some (File bytes True w)" if "utf8_valid bytes"
    using after that by (auto simp: t utf8_decode_valid)
  moreover have "fs s2 = fs s" if "utf8_valid bytes" "existsSync (fs s) (dirname ?p)"
  proof (cases w)
    case True
    then have "fs s2 = (fs s)(?p \<mapsto> File text True w)"
      using sv(2) that by (simp add: s2 str_join_str_split)
    then show ?thesis
      using f that by (simp add: t utf8_decode_valid fun_upd_idem)
  next
    case False
    then show ?thesis
      using that f
      by (simp add: s2 saveSession_def writeFileSync_existing [where d = "fs s" and p = ?p, OF f])
  qed
  ultimately show ?thesis
    using out f by (auto simp: str_join_str_split)
qed

theorem open_then_save_roundtrip_witness:
  "readFileSync (fs (initial abc_disk))
       (fullPath_of example_process (no_request\<lparr>path := Some ''f.txt''\<rparr>))
     = Inr abc_text \<and>
   createMockService ''DiffService'' example_process ''openDiff''
       (no_request\<lparr>path := Some ''f.txt''\<rparr>) (initial abc_disk)
     = (Callback None (OpenDiffResponse ''diff_7_1''),
        snd (openDiff example_process (no_request\<lparr>path := Some ''f.txt''\<rparr>) (initial abc_disk))) \<and>
   fs (initial abc_disk) ''/home/user/project/f.txt'' = Some (File abc_text True True) \<and>
   utf8_valid abc_text \<and>
   existsSync (fs (initial abc_disk)) (dirname ''/home/user/project/f.txt'') \<and>
   fst (createMockService ''DiffService'' example_process ''saveDocument''
       (no_request\<lparr>diff_id := Some ''diff_7_1''\<rparr>)
       (snd (openDiff example_process (no_request\<lparr>path := Some ''f.txt''\<rparr>) (initial abc_disk))))
     = Callback None Empty \<and>
   fs (snd (createMockService ''DiffService'' example_process ''saveDocument''
       (no_request\<lparr>diff_id := Some ''diff_7_1''\<rparr>)
       (snd (openDiff example_process (no_request\<lparr>path := Some ''f.txt''\<rparr>) (initial abc_disk)))))
     = abc_disk"
proof -
  let ?req = "no_request\<lparr>path := Some ''f.txt''\<rparr>"
  let ?s1 = "snd (openDiff example_process ?req (initial abc_disk))"
  have h1: "readFileSync (fs (initial abc_disk)) (fullPath_of example_process ?req) = Inr abc_text"
    by (simp add: f_txt initial_def abc_read)
  have h2: "createMockService ''DiffService'' example_process ''openDiff'' ?req (initial abc_disk)
     = (Callback None (OpenDiffResponse ''diff_7_1''), ?s1)"
    by (simp add: dispatch_openDiff openDiff_eq initial_def diff_7_1)
  have h3: "fs (initial abc_disk) ''/home/user/project/f.txt'' = Some (File abc_text True True)"
    by (simp add: initial_def abc_disk_def)
  have h4: "existsSync (fs (initial abc_disk)) (dirname ''/home/user/project/f.txt'')"
    by (simp add: dirname_f_txt existsSync_def initial_def abc_disk_def)
  have d: "fs (initial abc_disk) = abc_disk"
    by (simp add: initial_def)
  have h5: "fs (initial abc_disk) (fullPath_of example_process ?req) =
      Some (File abc_text True True) \<and> utf8_valid abc_text"
    by (simp add: f_txt h3 abc_valid)
  note t = open_then_save_roundtrip [where req' = no_request and sv = "''DiffService''",
      OF h1 h2 prod.collapse [symmetric]]
  note u = t [THEN conjunct2, THEN conjunct2, THEN conjunct2, rule_format, OF h5]
  from u [THEN conjunct2] h4
  have "fs (snd (createMockService ''DiffService'' example_process ''saveDocument''
       (no_request\<lparr>diff_id := Some ''diff_7_1''\<rparr>) ?s1)) = abc_disk"
    by (simp add: f_txt d)
  with t [THEN conjunct1] h1 h2 h3 h4 abc_valid show ?thesis
    by simp
qed

text \<open>
  Claim C4 as the specification states it fails for a file that is not UTF-8. The
  file with the bytes \<open>FF FE 0A 61\<close> is read as two characters U+FFFD, a line break
  and \<open>a\<close>, and saving writes that text: the file then holds \<open>EF BF BD EF BF BD 0A 61\<close>.
\<close>

theorem non_utf8_file_rewritten:
  "readFileSync (fs (initial ff_fe_disk)) ''/home/user/project/f.txt''
     = Inr (replacement @ replacement @ [newline, CHR ''a'']) \<and>
   fst (createMockService ''DiffService'' example_process ''openDiff''
       (no_request\<lparr>path := Some ''f.txt''\<rparr>) (initial ff_fe_disk))
     = Callback None (OpenDiffResponse ''diff_7_1'') \<and>
   fs (snd (createMockService ''DiffService'' example_process ''saveDocument''
       (no_request\<lparr>diff_id := Some ''diff_7_1''\<rparr>)
       (snd (createMockService ''DiffService'' example_process ''openDiff''
          (no_request\<lparr>path := Some ''f.txt''\<rparr>) (initial ff_fe_disk)))))
     ''/home/user/project/f.txt''
     = Some (File (replacement @ replacement @ [newline, CHR ''a'']) True True) \<and>
   ff_fe_disk ''/home/user/project/f.txt'' = Some (File ff_fe_bytes True True) \<and>
   replacement @ replacement @ [newline, CHR ''a''] \<noteq> ff_fe_bytes"
proof -
  have r: "readFileSync ff_fe_disk ''/home/user/project/f.txt''
     = Inr (replacement @ replacement @ [newline, CHR ''a''])"
    by (simp add: readFileSync_def ff_fe_disk_def ff_fe_decoded)
  have e: "existsSync ff_fe_disk ''/home/user/project/f.txt''"
      "existsSync ff_fe_disk ''/home/user/project''"
    by (simp_all add: existsSync_def ff_fe_disk_def)
  note dn = dirname_f_txt
  have w: "writeFileSync ff_fe_disk ''/home/user/project/f.txt'' t =
      Inr (ff_fe_disk(''/home/user/project/f.txt'' \<mapsto> File t True True))" for t
    by (simp add: writeFileSync_def ff_fe_disk_def)
  have "replacement @ replacement @ [newline, CHR ''a''] \<noteq> ff_fe_bytes"
    by (simp add: replacement_def ff_fe_bytes_def)
  then show ?thesis
    by (simp add: dispatch_openDiff dispatch_saveDocument openDiff_eq saveDocument_def
        getSession_def saveSession_def initial_def diff_7_1 f_txt r e dn w str_join_str_split)
       (simp add: ff_fe_disk_def)
qed

text \<open>
  Claim C8, as amended. \<^verbatim>\<open>openDiff\<close> resolves a relative path by joining it to a root,
  and the result is absolute when the root is. When the variable
  \<^verbatim>\<open>TEST_HOSTBRIDGE_WORKSPACE_DIR\<close> is set and not empty, the root is its value, and
  \<^verbatim>\<open>getWorkspacePaths\<close> answers with that one directory. When it is not set or empty,
  the root is the working directory of the process, and \<^verbatim>\<open>getWorkspacePaths\<close> answers
  with the one directory \<^verbatim>\<open>/test-workspace\<close>.
\<close>

theorem relative_path_resolution:
  assumes "\<not> isAbsolute (or_default (path req) [])"
    and "createMockService sv pr ''openDiff'' req s = (Callback None (OpenDiffResponse k), s')"
    and "root = or_default (TEST_HOSTBRIDGE_WORKSPACE_DIR pr) (cwd pr)"
  shows "map_option originalPath (diffSessions s' k) =
      Some (path_join root (or_default (path req) [])) \<and>
    (isAbsolute root \<longrightarrow> isAbsolute (path_join root (or_default (path req) []))) \<and>
    (\<forall>w. TEST_HOSTBRIDGE_WORKSPACE_DIR pr = Some w \<and> w \<noteq> [] \<longrightarrow>
       root = w \<and>
       createMockService sv' pr ''getWorkspacePaths'' req' s'' = (Callback None (Paths [w]), s'')) \<and>
    (TEST_HOSTBRIDGE_WORKSPACE_DIR pr = None \<or> TEST_HOSTBRIDGE_WORKSPACE_DIR pr = Some [] \<longrightarrow>
       root = cwd pr \<and>
       createMockService sv' pr ''getWorkspacePaths'' req' s'' =
         (Callback None (Paths [''/test-workspace'']), s''))"
proof -
  have "map_option originalPath (diffSessions s' k) = Some (fullPath_of pr req)"
    using assms(2) by (auto simp: dispatch_openDiff openDiff_eq)
  moreover have "fullPath_of pr req = path_join root (or_default (path req) [])"
    using assms(1,3) by (simp add: fullPath_of_def)
  ultimately show ?thesis
    using assms(3)
    by (auto simp: isAbsolute_path_join dispatch_getWorkspacePaths getWorkspacePaths_def
        or_default_def)
qed

theorem relative_path_resolution_witness:
  "\<not> isAbsolute (or_default (path (no_request\<lparr>path := Some ''f.txt''\<rparr>)) []) \<and>
   TEST_HOSTBRIDGE_WORKSPACE_DIR configured_process = Some ''/ws'' \<and>
   map_option originalPath (diffSessions (snd (createMockService ''DiffService'' configured_process
       ''openDiff'' (no_request\<lparr>path := Some ''f.txt''\<rparr>) (initial abc_disk))) ''diff_7_1'')
     = Some ''/ws/f.txt'' \<and>
   createMockService ''WorkspaceService'' configured_process ''getWorkspacePaths'' no_request
       (initial abc_disk) = (Callback None (Paths [''/ws'']), initial abc_disk) \<and>
   TEST_HOSTBRIDGE_WORKSPACE_DIR example_process = None \<and>
   map_option originalPath (diffSessions (snd (createMockService ''DiffService'' example_process
       ''openDiff'' (no_request\<lparr>path := Some ''f.txt''\<rparr>) (initial abc_disk))) ''diff_7_1'')
     = Some ''/home/user/project/f.txt''"
proof -
  let ?req = "no_request\<lparr>path := Some ''f.txt''\<rparr>"
  have h: "\<not> isAbsolute (or_default (path ?req) [])"
    by (simp add: no_request_def or_default_def isAbsolute_def slash_def)
  have c: "TEST_HOSTBRIDGE_WORKSPACE_DIR configured_process = Some ''/ws''"
      "TEST_HOSTBRIDGE_WORKSPACE_DIR example_process = None"
    by (simp_all add: configured_process_def example_process_def)
  have w: "cwd example_process = ''/home/user/project''"
    by (simp add: example_process_def)
  have k: "diffId_of configured_process (Suc 0) = ''diff_7_1''"
    by code_simp
  have j: "path_join ''/ws'' ''f.txt'' = ''/ws/f.txt''"
      "path_join ''/home/user/project'' ''f.txt'' = ''/home/user/project/f.txt''"
    by code_simp+
  have o: "createMockService ''DiffService'' pr ''openDiff'' ?req (initial abc_disk)
     = (Callback None (OpenDiffResponse (diffId_of pr (Suc 0))),
        snd (createMockService ''DiffService'' pr ''openDiff'' ?req (initial abc_disk)))" for pr
    by (simp add: dispatch_openDiff openDiff_eq initial_def)
  note t = relative_path_resolution [where sv' = "''WorkspaceService''" and req' = no_request
      and s'' = "initial abc_disk", OF h o refl]
  from t [where pr = configured_process]
  have "map_option originalPath (diffSessions (snd (createMockService ''DiffService''
       configured_process ''openDiff'' ?req (initial abc_disk))) ''diff_7_1'') = Some ''/ws/f.txt''"
    and "createMockService ''WorkspaceService'' configured_process ''getWorkspacePaths'' no_request
       (initial abc_disk) = (Callback None (Paths [''/ws'']), initial abc_disk)"
    by (simp_all add: k c or_default_def j no_request_def)
  moreover
  from t [where pr = example_process]
  have "map_option originalPath (diffSessions (snd (createMockService ''DiffService''
       example_process ''openDiff'' ?req (initial abc_disk))) ''diff_7_1'')
     = Some ''/home/user/project/f.txt''"
    by (simp add: diff_7_1 c or_default_def j no_request_def w)
  ultimately show ?thesis
    using h c by simp
qed

text \<open>
  Claim C8 as the specification states it fails when no workspace directory is
  configured: \<^verbatim>\<open>getWorkspacePaths\<close> answers \<^verbatim>\<open>/test-workspace\<close>, and \<^verbatim>\<open>openDiff\<close> resolves
  \<^verbatim>\<open>f.txt\<close> against the working directory of the process, not to
  \<^verbatim>\<open>/test-workspace/f.txt\<close>.
\<close>

theorem workspace_root_mismatch:
  "createMockService ''WorkspaceService'' example_process ''getWorkspacePaths'' no_request
       (initial abc_disk)
     = (Callback None (Paths [''/test-workspace'']), initial abc_disk) \<and>
   map_option originalPath (diffSessions (snd (createMockService ''DiffService'' example_process
       ''openDiff'' (no_request\<lparr>path := Some ''f.txt''\<rparr>) (initial abc_disk))) ''diff_7_1'')
     = Some ''/home/user/project/f.txt'' \<and>
   path_join ''/test-workspace'' ''f.txt'' = ''/test-workspace/f.txt'' \<and>
   map_option originalPath (diffSessions (snd (createMockService ''DiffService'' example_process
       ''openDiff'' (no_request\<lparr>path := Some ''f.txt''\<rparr>) (initial abc_disk))) ''diff_7_1'')
     \<noteq> Some (path_join ''/test-workspace'' ''f.txt'')"
proof -
  have "path_join ''/test-workspace'' ''f.txt'' = ''/test-workspace/f.txt''"
    by code_simp
  then show ?thesis
    by (simp add: dispatch_getWorkspacePaths dispatch_openDiff getWorkspacePaths_def
        or_default_def openDiff_eq f_txt diff_7_1 initial_def)
       (simp add: example_process_def)
qed

text \<open>
  Claim C9. The IDs that the calls of \<^verbatim>\<open>openDiff\<close> return in a run of the process are
  all different, whatever other calls and changes of the disk lie between them. An ID
  that is in the table of a state the process can reach is not returned by any call
  after it has been closed.
\<close>

theorem session_ids_never_reused:
  "distinct (diffIds (fst (run pr (initial d) es))) \<and>
   (reachable pr s \<and> diffSessions s k \<noteq> None \<longrightarrow>
      k \<notin> set (diffIds (fst (run pr
        (snd (createMockService sv pr ''closeDiff'' (req\<lparr>diff_id := Some k\<rparr>) s)) es))))"
proof (intro conjI impI)
  show "distinct (diffIds (fst (run pr (initial d) es)))"
    using run_ids by blast
next
  let ?s' = "snd (createMockService sv pr ''closeDiff'' (req\<lparr>diff_id := Some k\<rparr>) s)"
  assume a: "reachable pr s \<and> diffSessions s k \<noteq> None"
  then obtain n where n: "n \<le> diffCounter s" "k = diffId_of pr n"
    using reachable_ids_issued [of pr s] by (auto simp: ids_issued_def)
  have c: "diffCounter ?s' = diffCounter s"
    by (simp add: other_methods(1))
  show "k \<notin> set (diffIds (fst (run pr ?s' es)))"
  proof
    assume "k \<in> set (diffIds (fst (run pr ?s' es)))"
    then obtain m where "diffCounter ?s' < m" "k = diffId_of pr m"
      using run_ids [of pr ?s' es] by auto
    with n c show False
      by (auto dest: diffId_of_inj)
  qed
qed

theorem session_ids_never_reused_witness:
  "reachable example_process (snd (createMockService ''DiffService'' example_process ''openDiff''
       no_request (initial abc_disk))) \<and>
   diffSessions (snd (createMockService ''DiffService'' example_process ''openDiff''
       no_request (initial abc_disk))) ''diff_7_1'' \<noteq> None \<and>
   ''diff_7_1'' \<notin> set (diffIds (fst (run example_process
       (snd (createMockService ''DiffService'' example_process ''closeDiff''
          (no_request\<lparr>diff_id := Some ''diff_7_1''\<rparr>)
          (snd (createMockService ''DiffService'' example_process ''openDiff''
             no_request (initial abc_disk)))))
       [Call ''DiffService'' ''openDiff'' no_request])))"
proof -
  let ?s1 = "snd (createMockService ''DiffService'' example_process ''openDiff''
       no_request (initial abc_disk))"
  have "reachable example_process ?s1"
    by (intro reachable.call reachable.start)
  moreover have "diffSessions ?s1 ''diff_7_1'' \<noteq> None"
    by (simp add: dispatch_openDiff openDiff_eq initial_def diff_7_1)
  ultimately have h: "reachable example_process ?s1 \<and> diffSessions ?s1 ''diff_7_1'' \<noteq> None"
    by simp
  from session_ids_never_reused [THEN conjunct2, rule_format, OF h] h
  show ?thesis
    by blast
qed

end
